theory Spec2Isabelle
  imports Main "HOL-Library.Word"
begin

section \<open>Common vocabulary\<close>

text \<open>
  The exceptions the modelled code can raise. \<open>ValueError\<close> is what the interpreter's
  \<open>os.fdopen\<close> raises for a mode string it does not accept; \<open>TypeError\<close> is what
  \<open>len(None)\<close> raises; \<open>AttributeError\<close> is a failed attribute lookup.
  \<open>InvalidModeError\<close> is named by the specification only: no statement of the
  code raises it, and no equation below returns it.
\<close>

datatype error = ValueError | TypeError | AttributeError | InvalidModeError

type_synonym byte = "8 word"

section \<open>bytereader.py: BytesReader\<close>

text \<open>
  Python slice bounds: a negative bound counts from the end, and every bound is clamped
  into \<open>0 .. len\<close>.
\<close>

definition slice_bound :: "int \<Rightarrow> int \<Rightarrow> nat" where
  "slice_bound n i = (if i < 0 then nat (max 0 (i + n)) else nat (min i n))"

definition slice_from :: "'a list \<Rightarrow> int \<Rightarrow> 'a list" where
  \<comment> \<open>\<open>data[lo:]\<close>\<close>
  "slice_from xs lo = drop (slice_bound (int (length xs)) lo) xs"

definition slice :: "'a list \<Rightarrow> int \<Rightarrow> int \<Rightarrow> 'a list" where
  \<comment> \<open>\<open>data[lo:hi]\<close>\<close>
  "slice xs lo hi =
     (let n = int (length xs); a = slice_bound n lo; b = slice_bound n hi
      in take (b - a) (drop a xs))"

text \<open>
  The two attributes of a BytesReader. \<open>data\<close> is \<open>None\<close> once \<open>close()\<close> has run.
\<close>

record BytesReader =
  data :: "byte list option"
  pos :: int

definition BytesReader_init :: "byte list \<Rightarrow> BytesReader" where
  "BytesReader_init d = \<lparr>data = Some d, pos = 0\<rparr>"

text \<open>
  \<open>readview(size)\<close>; \<open>size\<close> is \<open>None\<close> or an integer. On a closed reader
  \<open>len(data)\<close> raises.
\<close>

definition reads_to_end :: "int option \<Rightarrow> bool" where
  \<comment> \<open>\<open>size is None or size < 0\<close>\<close>
  "reads_to_end sz = (case sz of None \<Rightarrow> True | Some n \<Rightarrow> n < 0)"

definition readview :: "BytesReader \<Rightarrow> int option \<Rightarrow> error + (byte list \<times> BytesReader)" where
  "readview self sz =
     (case data self of
        None \<Rightarrow> Inl TypeError
      | Some d \<Rightarrow>
          let p = pos self; dlen = int (length d) in
          if reads_to_end sz
          then Inr (slice_from d p, self\<lparr>pos := dlen\<rparr>)
          else let e = min (p + the sz) dlen
               in Inr (slice d p e, self\<lparr>pos := e\<rparr>))"

definition read :: "BytesReader \<Rightarrow> int option \<Rightarrow> error + (byte list \<times> BytesReader)" where
  \<comment> \<open>\<open>readview(size).tobytes()\<close>: the same bytes, copied.\<close>
  "read self sz = readview self sz"

definition seek :: "BytesReader \<Rightarrow> int \<Rightarrow> nat \<Rightarrow> error + (int \<times> BytesReader)" where
  \<comment> \<open>\<open>whence\<close>: 0 is SEEK_SET, 1 is SEEK_CUR, 2 is SEEK_END.\<close>
  "seek self p whence =
     (case data self of
        None \<Rightarrow> Inl TypeError
      | Some d \<Rightarrow>
          let dlen = int (length d);
              p' = (if whence = 1 then p + pos self else if whence = 2 then p + dlen else p);
              q = max (min dlen p') 0
          in Inr (q, self\<lparr>pos := q\<rparr>))"

text \<open>The position of an open reader lies within its data.\<close>

definition pos_in_range :: "BytesReader \<Rightarrow> bool" where
  "pos_in_range self =
     (case data self of None \<Rightarrow> True | Some d \<Rightarrow> 0 \<le> pos self \<and> pos self \<le> int (length d))"

section \<open>The operating system and the interpreter, as far as the code uses them\<close>

type_synonym fd = nat

text \<open>
  Descriptors are handed out in increasing order; \<open>open_fds\<close> are the descriptors
  the process holds, \<open>opened_paths\<close> the paths given to \<open>open()\<close> so far.
\<close>

record os_state =
  next_fd :: fd
  open_fds :: "fd set"
  opened_paths :: "string list"

definition os0 :: os_state where
  "os0 = \<lparr>next_fd = 0, open_fds = {}, opened_paths = []\<rparr>"

definition builtin_open :: "string \<Rightarrow> 'a os_state_scheme \<Rightarrow> fd \<times> 'a os_state_scheme" where
  \<comment> \<open>\<open>open(path, 'r+b')\<close>: a new file over a fresh descriptor\<close>
  "builtin_open path os =
     (next_fd os,
      os\<lparr>next_fd := next_fd os + 1,
         open_fds := insert (next_fd os) (open_fds os),
         opened_paths := opened_paths os @ [path]\<rparr>)"

section \<open>devnull.py: DevNull\<close>

datatype pyval = PyNone | PyBool bool | PyInt int | PyFile fd | PyFunction

text \<open>
  What the module finds in its interpreter: \<open>subprocess.DEVNULL\<close> (\<open>None\<close> where the
  import fails), \<open>os.devnull\<close> (\<open>None\<close> where \<open>os\<close> has no such attribute) and the
  answer of \<open>platform.system()\<close>.
\<close>

record pyenv =
  subprocess_DEVNULL :: "int option"
  os_devnull :: "string option"
  platform_system :: string

text \<open>The instance attributes \<open>_is_sp\<close> and \<open>_f\<close> set by \<open>__init__\<close>.\<close>

record DevNull =
  is_sp :: bool
  f :: "fd option"

definition DevNull_init :: "bool \<Rightarrow> DevNull" where
  "DevNull_init subprocess = \<lparr>is_sp = subprocess, f = None\<rparr>"

definition instance_dict :: "DevNull \<Rightarrow> (string \<times> pyval) list" where
  "instance_dict self =
     [(''_is_sp'', PyBool (is_sp self)),
      (''_f'', (case f self of None \<Rightarrow> PyNone | Some d \<Rightarrow> PyFile d))]"

text \<open>
  The names bound in the body of \<open>class DevNull\<close>, in source order. The class attribute
  holding the sentinel is \<open>DEVNULL\<close>, without an underscore. The base class
  \<open>io.RawIOBase\<close> has no attribute \<open>_DEVNULL\<close> either.
\<close>

definition class_dict :: "pyenv \<Rightarrow> (string \<times> pyval) list" where
  "class_dict env =
     (''DEVNULL'', (case subprocess_DEVNULL env of None \<Rightarrow> PyNone | Some v \<Rightarrow> PyInt v)) #
     map (\<lambda>n. (n, PyFunction))
       [''__init__'', ''__repr__'', ''fileno'', ''close'', ''flush'', ''isatty'',
        ''readable'', ''readline'', ''readlines'', ''seek'', ''seekable'', ''tell'',
        ''truncate'', ''writable'', ''writelines'', ''write'', ''read'', ''readall'',
        ''readinto'', ''read1'', ''readinto1'']"

definition getattr :: "pyenv \<Rightarrow> DevNull \<Rightarrow> string \<Rightarrow> error + pyval" where
  \<comment> \<open>\<open>self.name\<close>: the instance first, then the class\<close>
  "getattr env self name =
     (case map_of (instance_dict self @ class_dict env) name of
        None \<Rightarrow> Inl AttributeError
      | Some v \<Rightarrow> Inr v)"

definition open_null :: "pyenv \<Rightarrow> 'a os_state_scheme \<Rightarrow> fd \<times> 'a os_state_scheme" where
  \<comment> \<open>the \<open>try: open(os.devnull) except AttributeError:\<close> block of \<open>fileno\<close>\<close>
  "open_null env os =
     (case os_devnull env of
        Some path \<Rightarrow> builtin_open path os
      | None \<Rightarrow>
          if platform_system env = ''Windows'' then builtin_open ''NUL'' os
          else builtin_open ''/dev/null'' os)"

definition DevNull_fileno ::
  "pyenv \<Rightarrow> DevNull \<Rightarrow> os_state \<Rightarrow> (error + pyval) \<times> DevNull \<times> os_state" where
  "DevNull_fileno env self os =
     (case (if is_sp self
            then (case getattr env self ''_DEVNULL'' of
                    Inl e \<Rightarrow> Inl e
                  | Inr v \<Rightarrow> Inr (v \<noteq> PyNone))
            else Inr False) of
        Inl e \<Rightarrow> (Inl e, self, os)
      | Inr True \<Rightarrow> (getattr env self ''_DEVNULL'', self, os)
      | Inr False \<Rightarrow>
          (case f self of
             Some d \<Rightarrow> (Inr (PyInt (int d)), self, os)
           | None \<Rightarrow>
               let (d, os') = open_null env os
               in (Inr (PyInt (int d)), self\<lparr>f := Some d\<rparr>, os')))"

section \<open>fdwrap.py: the world of a Bridge\<close>

text \<open>
  The caller's stream object is known by its identity. A pipe end wrapped by
  \<open>os.fdopen(fd, mode)\<close> is a file object over that descriptor.
\<close>

type_synonym objid = nat

datatype pyfile = Fdopen fd string

datatype stream = Caller objid | Piped pyfile

text \<open>
  The calls a Bridge makes on its collaborators: \<open>os.pipe()\<close> with the pair it
  returned, \<open>os.fdopen\<close>, the \<open>Forwarder\<close> constructor with its four
  positional arguments, \<open>close()\<close> on a file object, \<open>join()\<close> and
  \<open>stop()\<close> on the forwarder, \<open>close()\<close> on the caller's object.
\<close>

datatype call =
    CallPipe fd fd
  | CallFdopen fd string
  | CallForwarder stream stream bool bool
  | CallFileClose pyfile
  | CallJoin
  | CallStop
  | CallObjClose objid

text \<open>
  The world extends the operating system's state with the file objects and caller
  objects that have been closed, and with the calls made so far by the thread that
  uses the Bridge (\<open>trace\<close>).
\<close>

record world = os_state +
  closed_files :: "fd set"
  closed_objs :: "objid set"
  trace :: "call list"

definition world0 :: world where
  "world0 = \<lparr>next_fd = 0, open_fds = {}, opened_paths = [],
             closed_files = {}, closed_objs = {}, trace = []\<rparr>"

definition called :: "call \<Rightarrow> world \<Rightarrow> world" where
  "called c w = w\<lparr>trace := trace w @ [c]\<rparr>"

definition os_pipe :: "world \<Rightarrow> (fd \<times> fd) \<times> world" where
  \<comment> \<open>\<open>os.pipe()\<close>: two fresh descriptors, the read end first\<close>
  "os_pipe w =
     (let r = next_fd w; wr = next_fd w + 1
      in ((r, wr),
          called (CallPipe r wr)
            (w\<lparr>next_fd := next_fd w + 2, open_fds := insert r (insert wr (open_fds w))\<rparr>)))"

text \<open>
  \<open>os.fdopen(fd, mode)\<close>. Which mode strings the interpreter accepts is not decided
  by this repository, so it is a parameter; a rejected mode raises ValueError.
\<close>

definition os_fdopen :: "(string \<Rightarrow> bool) \<Rightarrow> fd \<Rightarrow> string \<Rightarrow> world \<Rightarrow> (error + pyfile) \<times> world" where
  "os_fdopen accepts d mode w =
     ((if accepts mode then Inr (Fdopen d mode) else Inl ValueError),
      called (CallFdopen d mode) w)"

text \<open>
  An instance of that parameter, for concrete runs: the mode check of the interpreter's
  \<open>open()\<close>: known letters only, none twice, not text and binary together, and exactly
  one of create, read, write, append.
\<close>

definition py_open_accepts :: "string \<Rightarrow> bool" where
  "py_open_accepts mode =
     (set mode \<subseteq> set ''axrwb+t'' \<and> distinct mode
      \<and> \<not> (CHR ''t'' \<in> set mode \<and> CHR ''b'' \<in> set mode)
      \<and> length (filter (\<lambda>c. c \<in> set ''xrwa'') mode) = 1)"

text \<open>
  Closing a file object releases its descriptor the first time and does nothing
  afterwards. \<open>release_file\<close> is the effect, \<open>file_close\<close> the call made by the
  Bridge.
\<close>

fun release_file :: "pyfile \<Rightarrow> world \<Rightarrow> world" where
  "release_file (Fdopen d m) w =
     (if d \<in> closed_files w then w
      else w\<lparr>open_fds := open_fds w - {d}, closed_files := insert d (closed_files w)\<rparr>)"

definition file_close :: "pyfile \<Rightarrow> world \<Rightarrow> world" where
  "file_close fl w = release_file fl (called (CallFileClose fl) w)"

definition release_obj :: "objid \<Rightarrow> world \<Rightarrow> world" where
  "release_obj ob w = w\<lparr>closed_objs := insert ob (closed_objs w)\<rparr>"

definition obj_close :: "objid \<Rightarrow> world \<Rightarrow> world" where
  "obj_close ob w = release_obj ob (called (CallObjClose ob) w)"

fun release_stream :: "stream \<Rightarrow> world \<Rightarrow> world" where
  "release_stream (Caller ob) w = release_obj ob w"
| "release_stream (Piped fl) w = release_file fl w"

section \<open>forwarder.py: Forwarder\<close>

datatype result = NormalEof | Stopped | Failed

datatype loop_state = Running | Stopping | Exited result

text \<open>
  Modelled from the spec: the module \<open>forwarder.py\<close> that \<open>fdwrap.py\<close> imports is
  missing. A Forwarder instance has a source and a sink capability, the flags
  ownsSource and ownsSink saying whether it closes that side when its loop exits, and
  the state of its copy loop, terminal once exited.
\<close>

record Forwarder =
  source :: stream
  sink :: stream
  ownsSource :: bool
  ownsSink :: bool
  status :: loop_state

definition Forwarder_init :: "stream \<Rightarrow> stream \<Rightarrow> bool \<Rightarrow> bool \<Rightarrow> world \<Rightarrow> Forwarder \<times> world" where
  \<comment> \<open>Modelled from the spec: the missing constructor; \<open>start(source, sink, ownsSource,
      ownsSink)\<close> begins the background copy loop at once and does not block.\<close>
  "Forwarder_init src snk osrc osnk w =
     (\<lparr>source = src, sink = snk, ownsSource = osrc, ownsSink = osnk, status = Running\<rparr>,
      called (CallForwarder src snk osrc osnk) w)"

definition loop_exit :: "result \<Rightarrow> Forwarder \<Rightarrow> world \<Rightarrow> Forwarder \<times> world" where
  \<comment> \<open>Modelled from the spec: the missing copy loop's exit; on loop exit, for any reason,
      the source is closed if owned, the sink is closed if owned, and the result is
      recorded; a loop that was asked to stop records that it was stopped.\<close>
  "loop_exit res fw w =
     (case status fw of
        Exited r \<Rightarrow> (fw, w)
      | _ \<Rightarrow>
          let w1 = (if ownsSource fw then release_stream (source fw) w else w);
              w2 = (if ownsSink fw then release_stream (sink fw) w1 else w1)
          in (fw\<lparr>status := Exited (if status fw = Stopping then Stopped else res)\<rparr>, w2))"

definition Forwarder_stop :: "Forwarder \<Rightarrow> world \<Rightarrow> Forwarder \<times> world" where
  \<comment> \<open>Modelled from the spec: the missing \<open>stop()\<close>; it signals the loop to exit at
      its next safe point, does not block, is idempotent and is a no-op after the loop
      has exited.\<close>
  "Forwarder_stop fw w =
     ((if status fw = Running then fw\<lparr>status := Stopping\<rparr> else fw), called CallStop w)"

definition Forwarder_join :: "result option \<Rightarrow> Forwarder \<Rightarrow> world \<Rightarrow> (Forwarder \<times> world) option" where
  \<comment> \<open>Modelled from the spec: the missing \<open>join()\<close>; it blocks the caller until the
      loop has exited and owned resources are released, and returns at once when the
      loop has already exited; the recorded result is then in \<open>status\<close>. The first
      argument is how a loop that is still active comes to its end while the caller
      waits; \<open>None\<close> is a loop that never ends, on which the caller waits for ever.\<close>
  "Forwarder_join ending fw w =
     (let w1 = called CallJoin w in
      case status fw of
        Exited r \<Rightarrow> Some (fw, w1)
      | _ \<Rightarrow>
          (case ending of
             None \<Rightarrow> None
           | Some res \<Rightarrow> Some (loop_exit res fw w1)))"

section \<open>fdwrap.py: FDWrap\<close>

text \<open>The attributes \<open>_orig\<close>, \<open>file\<close> (here \<open>file_obj\<close>) and \<open>_forward\<close>.\<close>

record FDWrap =
  orig :: objid
  file_obj :: pyfile
  forward :: Forwarder

definition FDWrap_init ::
  "(string \<Rightarrow> bool) \<Rightarrow> objid \<Rightarrow> string \<Rightarrow> world \<Rightarrow> (error + FDWrap) \<times> world" where
  "FDWrap_init accepts fobj mode w0 =
     (let ((r, w), w1) = os_pipe w0 in
      if CHR ''r'' \<in> set mode then
        (case os_fdopen accepts r mode w1 of
           (Inl e, w2) \<Rightarrow> (Inl e, w2)
         | (Inr fl, w2) \<Rightarrow>
             (case os_fdopen accepts w ''wb'' w2 of
                (Inl e, w3) \<Rightarrow> (Inl e, w3)
              | (Inr pw, w3) \<Rightarrow>
                  let (fw, w4) = Forwarder_init (Caller fobj) (Piped pw) False True w3
                  in (Inr \<lparr>orig = fobj, file_obj = fl, forward = fw\<rparr>, w4)))
      else
        (case os_fdopen accepts w mode w1 of
           (Inl e, w2) \<Rightarrow> (Inl e, w2)
         | (Inr fl, w2) \<Rightarrow>
             (case os_fdopen accepts r ''rb'' w2 of
                (Inl e, w3) \<Rightarrow> (Inl e, w3)
              | (Inr pr, w3) \<Rightarrow>
                  let (fw, w4) = Forwarder_init (Piped pr) (Caller fobj) True False w3
                  in (Inr \<lparr>orig = fobj, file_obj = fl, forward = fw\<rparr>, w4))))"

definition FDWrap_enter :: "FDWrap \<Rightarrow> world \<Rightarrow> FDWrap \<times> world" where
  "FDWrap_enter self w = (self, w)"

definition FDWrap_exit :: "FDWrap \<Rightarrow> world \<Rightarrow> FDWrap \<times> world" where
  "FDWrap_exit self w = (self, file_close (file_obj self) w)"

definition FDWrap_join :: "result option \<Rightarrow> FDWrap \<Rightarrow> world \<Rightarrow> (objid \<times> FDWrap \<times> world) option" where
  "FDWrap_join ending self w =
     (let w1 = file_close (file_obj self) w in
      case Forwarder_join ending (forward self) w1 of
        None \<Rightarrow> None
      | Some (fw, w2) \<Rightarrow> Some (orig self, self\<lparr>forward := fw\<rparr>, w2))"

definition FDWrap_detach :: "FDWrap \<Rightarrow> world \<Rightarrow> objid \<times> FDWrap \<times> world" where
  "FDWrap_detach self w =
     (let (fw, w1) = Forwarder_stop (forward self) w
      in (orig self, self\<lparr>forward := fw\<rparr>, w1))"

definition FDWrap_close :: "FDWrap \<Rightarrow> world \<Rightarrow> FDWrap \<times> world" where
  "FDWrap_close self w =
     (let (ob, self', w1) = FDWrap_detach self w
      in (self', obj_close ob w1))"

text \<open>The four static methods; none of them looks at the instance.\<close>

definition FDWrap_isatty :: "FDWrap \<Rightarrow> bool" where
  "FDWrap_isatty self = False"

definition FDWrap_readable :: "FDWrap \<Rightarrow> bool" where
  "FDWrap_readable self = False"

definition FDWrap_writable :: "FDWrap \<Rightarrow> bool" where
  "FDWrap_writable self = False"

definition FDWrap_seekable :: "FDWrap \<Rightarrow> bool" where
  "FDWrap_seekable self = False"

definition pyfile_fd :: "pyfile \<Rightarrow> fd" where
  "pyfile_fd fl = (case fl of Fdopen d m \<Rightarrow> d)"

definition FDWrap_fileno :: "FDWrap \<Rightarrow> world \<Rightarrow> error + fd" where
  \<comment> \<open>\<open>self.file.fileno()\<close>, which raises ValueError on a closed file object\<close>
  "FDWrap_fileno self w =
     (if pyfile_fd (file_obj self) \<in> closed_files w then Inl ValueError
      else Inr (pyfile_fd (file_obj self)))"

text \<open>
  Two concrete bridges over the caller's object 7 in the empty world: the one
  \<open>FDWrap(fobj, 'rb')\<close> builds and the one \<open>FDWrap(fobj, 'wb')\<close> builds.
\<close>

definition example_read_bridge :: FDWrap where
  "example_read_bridge =
     \<lparr>orig = 7, file_obj = Fdopen 0 ''rb'',
      forward = \<lparr>source = Caller 7, sink = Piped (Fdopen 1 ''wb''),
                 ownsSource = False, ownsSink = True, status = Running\<rparr>\<rparr>"

definition example_write_bridge :: FDWrap where
  "example_write_bridge =
     \<lparr>orig = 7, file_obj = Fdopen 1 ''wb'',
      forward = \<lparr>source = Piped (Fdopen 0 ''rb''), sink = Caller 7,
                 ownsSource = True, ownsSink = False, status = Running\<rparr>\<rparr>"

definition example_world :: world where
  \<comment> \<open>the world right after either construction, but for the trace\<close>
  "example_world =
     \<lparr>next_fd = 2, open_fds = {0, 1}, opened_paths = [],
      closed_files = {}, closed_objs = {}, trace = []\<rparr>"

text \<open>
  A forwarder borrows the caller's object when that object is one of its two sides,
  the other side being a pipe end, and the side holding the caller's object is not
  owned.
\<close>

definition borrows_caller :: "Forwarder \<Rightarrow> bool" where
  "borrows_caller fw = ((\<exists>ob. source fw = Caller ob) \<and> \<not> ownsSource fw \<and> (\<exists>fl. sink fw = Piped fl)
     \<or> (\<exists>ob. sink fw = Caller ob) \<and> \<not> ownsSink fw \<and> (\<exists>fl. source fw = Piped fl))"

section \<open>forwarder.py: the copy loop behind a write-mode Bridge\<close>

text \<open>
  Modelled from the spec: the copy loop is in the missing \<open>forwarder.py\<close>, and the
  pipe is the operating system's. In a write-mode Bridge the loop's source is the
  pipe's read end and its sink is the caller's object. The state of the byte flow:
  \<open>written\<close>, every byte a write on the exposed descriptor has handed to the pipe,
  in order; \<open>pipe\<close>, the kernel buffer; \<open>exposed_open\<close>, whether the exposed write
  end is still open; \<open>chunk\<close>, what is left of the chunk the loop has read and not
  yet written out; \<open>loop\<close>, the state of the loop; \<open>received\<close>, every byte the
  sink's \<open>write\<close> has accepted, in order.
\<close>

record flow =
  written :: "byte list"
  pipe :: "byte list"
  exposed_open :: bool
  chunk :: "byte list"
  loop :: loop_state
  received :: "byte list"

definition flow0 :: flow where
  \<comment> \<open>Modelled from the spec: right after construction the pipe is empty and the loop
      has started.\<close>
  "flow0 = \<lparr>written = [], pipe = [], exposed_open = True, chunk = [], loop = Running,
            received = []\<rparr>"

text \<open>
  Modelled from the spec: what can happen, one event at a time, in any interleaving.
  \<open>Write bs\<close>: a write on the exposed descriptor hands the bytes \<open>bs\<close> to the pipe.
  \<open>CloseExposed\<close>: the exposed end is closed, as \<open>join()\<close> does first.
  \<open>LoopRead n\<close>: the loop's read on the pipe returns \<open>n\<close> bytes, zero bytes at
  end of data. \<open>LoopWrite n\<close>: the sink's \<open>write\<close> accepts the first \<open>n\<close> bytes of
  the pending chunk. \<open>SinkError\<close>: the sink's \<open>write\<close> raises. \<open>Stop\<close>:
  \<open>stop()\<close> is called. \<open>StopObserved\<close>: the loop sees the request at its next
  safe point and exits.
\<close>

datatype event =
    Write "byte list"
  | CloseExposed
  | LoopRead nat
  | LoopWrite nat
  | SinkError
  | Stop
  | StopObserved

fun exited :: "loop_state \<Rightarrow> bool" where
  "exited (Exited r) = True"
| "exited _ = False"

text \<open>
  Modelled from the spec: one event, with the pipe's capacity and the loop's fixed
  chunk size. \<open>None\<close> is an event that cannot happen in that state. A write needs
  the exposed end open, a reader still there and room in the pipe (it blocks when the
  pipe is full). The loop reads only when it has no chunk pending: at most the chunk
  size and at most what the pipe holds, and it reads zero bytes only when the pipe is
  empty and its write end closed (a read on an empty pipe blocks otherwise); the
  zero-length read ends the loop normally. The loop writes the pending chunk until
  all of it is accepted, the sink taking any non-empty prefix at a time; an error of
  the sink ends the loop with a failure; a stop request ends it as stopped.
\<close>

fun flow_step :: "nat \<Rightarrow> nat \<Rightarrow> event \<Rightarrow> flow \<Rightarrow> flow option" where
  "flow_step cap csz (Write bs) s =
     (if exposed_open s \<and> \<not> exited (loop s) \<and> bs \<noteq> [] \<and> length (pipe s) + length bs \<le> cap
      then Some (s\<lparr>written := written s @ bs, pipe := pipe s @ bs\<rparr>)
      else None)"
| "flow_step cap csz CloseExposed s =
     (if exposed_open s then Some (s\<lparr>exposed_open := False\<rparr>) else None)"
| "flow_step cap csz (LoopRead n) s =
     (if loop s = Running \<and> chunk s = [] then
        (if n = 0 then
           (if pipe s = [] \<and> \<not> exposed_open s then Some (s\<lparr>loop := Exited NormalEof\<rparr>)
            else None)
         else if n \<le> csz \<and> n \<le> length (pipe s)
              then Some (s\<lparr>chunk := take n (pipe s), pipe := drop n (pipe s)\<rparr>)
              else None)
      else None)"
| "flow_step cap csz (LoopWrite n) s =
     (if loop s = Running \<and> 0 < n \<and> n \<le> length (chunk s)
      then Some (s\<lparr>received := received s @ take n (chunk s), chunk := drop n (chunk s)\<rparr>)
      else None)"
| "flow_step cap csz SinkError s =
     (if loop s = Running \<and> chunk s \<noteq> [] then Some (s\<lparr>loop := Exited Failed\<rparr>) else None)"
| "flow_step cap csz Stop s =
     (if loop s = Running then Some (s\<lparr>loop := Stopping\<rparr>) else Some s)"
| "flow_step cap csz StopObserved s =
     (if loop s = Stopping then Some (s\<lparr>loop := Exited Stopped\<rparr>) else None)"

fun run :: "nat \<Rightarrow> nat \<Rightarrow> event list \<Rightarrow> flow \<Rightarrow> flow option" where
  "run cap csz [] s = Some s"
| "run cap csz (e # es) s =
     (case flow_step cap csz e s of None \<Rightarrow> None | Some s' \<Rightarrow> run cap csz es s')"



text \<open>A schedule that moves the bytes of \<open>B\<close> one at a time.\<close>

fun bytewise :: "byte list \<Rightarrow> event list" where
  "bytewise [] = []"
| "bytewise (b # bs) = Write [b] # LoopRead 1 # LoopWrite 1 # bytewise bs"

section \<open>Properties of BytesReader\<close>

lemma slice_from_at_end: "slice_from xs (int (length xs)) = []"
  by (simp add: slice_from_def slice_bound_def)

lemma slice_at_end: "slice xs (int (length xs)) (int (length xs)) = []"
  by (simp add: slice_def slice_bound_def Let_def)

lemma slice_in_range:
  assumes "0 \<le> p" and "p \<le> int (length xs)" and "0 \<le> n"
  shows "slice xs p (min (p + n) (int (length xs))) = take (nat n) (drop (nat p) xs)"
proof -
  let ?len = "int (length xs)"
  let ?e = "min (p + n) ?len"
  have a: "slice_bound ?len p = nat p"
    using assms by (simp add: slice_bound_def)
  have e0: "0 \<le> ?e" using assms by simp
  have b: "slice_bound ?len ?e = nat ?e"
    using e0 by (simp add: slice_bound_def)
  have "take (nat ?e - nat p) (drop (nat p) xs) = take (nat n) (drop (nat p) xs)"
  proof (cases "p + n \<le> ?len")
    case True
    then have "nat ?e - nat p = nat n" using assms by simp
    then show ?thesis by simp
  next
    case False
    then have "nat ?e - nat p = length xs - nat p" using assms by simp
    moreover have "length (drop (nat p) xs) \<le> nat n" using False assms by simp
    ultimately show ?thesis by simp
  qed
  then show ?thesis
    unfolding slice_def Let_def a b by simp
qed

lemma init_pos_in_range: "pos_in_range (BytesReader_init d)"
  by (simp add: pos_in_range_def BytesReader_init_def)

lemma seek_pos_in_range: "seek self p whence = Inr (q, self') \<Longrightarrow> pos_in_range self'"
  by (auto simp: seek_def pos_in_range_def Let_def split: option.splits)

lemma read_pos_in_range:
  "pos_in_range self \<Longrightarrow> read self sz = Inr (out, self') \<Longrightarrow> pos_in_range self'"
  by (cases sz)
     (auto simp: read_def readview_def pos_in_range_def reads_to_end_def Let_def
           split: option.splits if_splits)

text \<open>
  C9. A reader over data \<open>D\<close> whose position is \<open>len(D)\<close> answers every
  \<open>read(size)\<close>, whatever the size (also \<open>None\<close> and negative sizes), with the
  empty bytes object and stays where it is, so every later read does the same. Before
  that, with the position inside the data and a size \<open>n \<ge> 0\<close>, \<open>read(n)\<close>
  returns the next bytes in order from the current position, at most \<open>n\<close> of
  them, and advances the position by the number of bytes returned.
\<close>

theorem BytesReader_read_contract:
  assumes "data self = Some D"
  shows "(pos self = int (length D) \<longrightarrow> read self sz = Inr ([], self))
       \<and> (0 \<le> pos self \<and> pos self \<le> int (length D) \<and> 0 \<le> n \<longrightarrow>
           (\<exists>out. read self (Some n) = Inr (out, self\<lparr>pos := pos self + int (length out)\<rparr>)
              \<and> out = take (nat n) (drop (nat (pos self)) D)
              \<and> int (length out) \<le> n))"
proof (intro conjI impI)
  assume p: "pos self = int (length D)"
  show "read self sz = Inr ([], self)"
  proof (cases "reads_to_end sz")
    case True
    then show ?thesis
      using assms p by (simp add: read_def readview_def slice_from_at_end)
  next
    case False
    then obtain k where k: "sz = Some k" "0 \<le> k"
      by (cases sz) (auto simp: reads_to_end_def)
    then have "min (pos self + the sz) (int (length D)) = int (length D)"
      using p by simp
    then show ?thesis
      using assms p False by (simp add: read_def readview_def Let_def slice_at_end)
  qed
next
  assume h: "0 \<le> pos self \<and> pos self \<le> int (length D) \<and> 0 \<le> n"
  let ?out = "take (nat n) (drop (nat (pos self)) D)"
  have sl: "slice D (pos self) (min (pos self + n) (int (length D))) = ?out"
    using h by (simp add: slice_in_range)
  have len: "int (length ?out) = min (pos self + n) (int (length D)) - pos self"
    using h by (simp add: min_def) linarith
  have "read self (Some n) = Inr (?out, self\<lparr>pos := min (pos self + n) (int (length D))\<rparr>)"
    using assms h sl by (simp add: read_def readview_def Let_def reads_to_end_def)
  moreover have "min (pos self + n) (int (length D)) = pos self + int (length ?out)"
    using len by simp
  moreover have "int (length ?out) \<le> n" using h by (simp add: min_def) linarith
  ultimately show "\<exists>out. read self (Some n) = Inr (out, self\<lparr>pos := pos self + int (length out)\<rparr>)
          \<and> out = take (nat n) (drop (nat (pos self)) D)
          \<and> int (length out) \<le> n"
    by simp
qed

theorem BytesReader_read_contract_witness:
  "data (BytesReader_init [1, 2, 3]\<lparr>pos := 3\<rparr>) = Some [1, 2, 3]
   \<and> read (BytesReader_init [1, 2, 3]\<lparr>pos := 3\<rparr>) (Some 5)
       = Inr ([], BytesReader_init [1, 2, 3]\<lparr>pos := 3\<rparr>)
   \<and> data (BytesReader_init [1, 2, 3]\<lparr>pos := 1\<rparr>) = Some [1, 2, 3]
   \<and> read (BytesReader_init [1, 2, 3]\<lparr>pos := 1\<rparr>) (Some 1)
       = Inr ([2], BytesReader_init [1, 2, 3]\<lparr>pos := 2\<rparr>)"
proof -
  have d3: "data (BytesReader_init [1, 2, 3]\<lparr>pos := 3\<rparr>) = Some [1, 2, 3]"
    by (simp add: BytesReader_init_def)
  have d1: "data (BytesReader_init [1, 2, 3]\<lparr>pos := 1\<rparr>) = Some [1, 2, 3]"
    by (simp add: BytesReader_init_def)
  have a: "read (BytesReader_init [1, 2, 3]\<lparr>pos := 3\<rparr>) (Some 5)
       = Inr ([], BytesReader_init [1, 2, 3]\<lparr>pos := 3\<rparr>)"
    using BytesReader_read_contract [OF d3, of "Some 5" 0]
    by (simp add: BytesReader_init_def)
  have b: "read (BytesReader_init [1, 2, 3]\<lparr>pos := 1\<rparr>) (Some 1)
       = Inr ([2], BytesReader_init [1, 2, 3]\<lparr>pos := 2\<rparr>)"
    using BytesReader_read_contract [OF d1, of "Some 5" 1]
    by (simp add: BytesReader_init_def)
  show ?thesis using d3 d1 a b by simp
qed

section \<open>Properties of DevNull\<close>

lemma getattr_DEVNULL_missing: "getattr env self ''_DEVNULL'' = Inl AttributeError"
  by (simp add: getattr_def instance_dict_def class_dict_def)

text \<open>
  C10. On an instance created with \<open>subprocess=True\<close>, \<open>fileno()\<close> raises
  AttributeError, because it reads \<open>self._DEVNULL\<close> and neither the instance nor the
  class has that attribute. No value is returned, so not the \<open>subprocess.DEVNULL\<close>
  sentinel either, and no file is opened: the instance and the set of open descriptors
  are as before.
\<close>

theorem DevNull_fileno_subprocess_raises:
  assumes "is_sp self"
  shows "DevNull_fileno env self os = (Inl AttributeError, self, os)"
  using assms by (simp add: DevNull_fileno_def getattr_DEVNULL_missing)

theorem DevNull_fileno_subprocess_raises_witness:
  "is_sp (DevNull_init True)
   \<and> DevNull_fileno
        \<lparr>subprocess_DEVNULL = Some (- 3), os_devnull = Some ''/dev/null'',
         platform_system = ''Linux''\<rparr>
        (DevNull_init True) os0
       = (Inl AttributeError, DevNull_init True, os0)"
proof -
  have h: "is_sp (DevNull_init True)" by (simp add: DevNull_init_def)
  show ?thesis using h DevNull_fileno_subprocess_raises [OF h] by simp
qed

section \<open>Properties of FDWrap: construction\<close>

lemmas init_defs = FDWrap_init_def os_pipe_def os_fdopen_def Forwarder_init_def called_def



text \<open>
  C4. When the construction succeeds on a mode with the letter r, the exposed file is
  the pipe's read end, opened with the given mode, and the forwarder is started with
  the caller's object as source, not owned, and the pipe's write end as sink, owned.
  On any other mode the exposed file is the pipe's write end and the forwarder is
  started with the pipe's read end as source, owned, and the caller's object as sink,
  not owned.
\<close>

theorem FDWrap_init_wiring:
  assumes "FDWrap_init accepts fobj mode w0 = (Inr self, w')"
    and "fst (os_pipe w0) = (r, w)"
  shows "orig self = fobj
    \<and> (CHR ''r'' \<in> set mode \<longrightarrow>
         file_obj self = Fdopen r mode
         \<and> forward self = \<lparr>source = Caller fobj, sink = Piped (Fdopen w ''wb''),
                            ownsSource = False, ownsSink = True, status = Running\<rparr>)
    \<and> (CHR ''r'' \<notin> set mode \<longrightarrow>
         file_obj self = Fdopen w mode
         \<and> forward self = \<lparr>source = Piped (Fdopen r ''rb''), sink = Caller fobj,
                            ownsSource = True, ownsSink = False, status = Running\<rparr>)"
  using assms
  by (auto simp: FDWrap_init_def os_pipe_def os_fdopen_def Forwarder_init_def Let_def
           split: if_splits prod.splits sum.splits)

theorem FDWrap_init_wiring_witness:
  "FDWrap_init py_open_accepts 7 ''rb'' world0
     = (Inr example_read_bridge,
        example_world\<lparr>trace := [CallPipe 0 1, CallFdopen 0 ''rb'', CallFdopen 1 ''wb'',
           CallForwarder (Caller 7) (Piped (Fdopen 1 ''wb'')) False True]\<rparr>)
   \<and> fst (os_pipe world0) = (0, 1)
   \<and> file_obj example_read_bridge = Fdopen 0 ''rb''
   \<and> FDWrap_init py_open_accepts 7 ''wb'' world0
     = (Inr example_write_bridge,
        example_world\<lparr>trace := [CallPipe 0 1, CallFdopen 1 ''wb'', CallFdopen 0 ''rb'',
           CallForwarder (Piped (Fdopen 0 ''rb'')) (Caller 7) True False]\<rparr>)
   \<and> file_obj example_write_bridge = Fdopen 1 ''wb''"
proof -
  have a: "FDWrap_init py_open_accepts 7 ''rb'' world0
     = (Inr example_read_bridge,
        example_world\<lparr>trace := [CallPipe 0 1, CallFdopen 0 ''rb'', CallFdopen 1 ''wb'',
           CallForwarder (Caller 7) (Piped (Fdopen 1 ''wb'')) False True]\<rparr>)"
    by (simp add: init_defs py_open_accepts_def world0_def example_read_bridge_def example_world_def)
  have b: "FDWrap_init py_open_accepts 7 ''wb'' world0
     = (Inr example_write_bridge,
        example_world\<lparr>trace := [CallPipe 0 1, CallFdopen 1 ''wb'', CallFdopen 0 ''rb'',
           CallForwarder (Piped (Fdopen 0 ''rb'')) (Caller 7) True False]\<rparr>)"
    by (simp add: init_defs py_open_accepts_def world0_def example_write_bridge_def example_world_def)
  have p: "fst (os_pipe world0) = (0, 1)"
    by (simp add: os_pipe_def world0_def Let_def)
  from FDWrap_init_wiring [OF a p] FDWrap_init_wiring [OF b p] a b p show ?thesis by simp
qed

section \<open>Properties of FDWrap: capability queries\<close>

text \<open>
  C3, as the specification states it: a read-mode Bridge reports readable and a
  write-mode Bridge reports writable. The bridge built by \<open>FDWrap(fobj, 'rb')\<close>
  answers \<open>readable()\<close> with False, and the one built by \<open>FDWrap(fobj, 'wb')\<close>
  answers \<open>writable()\<close> with False.
\<close>

theorem FDWrap_capabilities_counterexample:
  "CHR ''r'' \<in> set ''rb''
   \<and> fst (FDWrap_init py_open_accepts 7 ''rb'' world0) = Inr example_read_bridge
   \<and> FDWrap_readable example_read_bridge = False
   \<and> fst (FDWrap_init py_open_accepts 7 ''wb'' world0) = Inr example_write_bridge
   \<and> FDWrap_writable example_write_bridge = False"
  by (simp add: init_defs py_open_accepts_def world0_def example_read_bridge_def
        example_write_bridge_def FDWrap_readable_def FDWrap_writable_def)

text \<open>
  C3, amended. For every FDWrap instance, whatever its direction, \<open>seekable()\<close>,
  \<open>isatty()\<close>, \<open>readable()\<close> and \<open>writable()\<close> all return False.
\<close>

theorem FDWrap_capabilities_all_false:
  "FDWrap_seekable self = False \<and> FDWrap_isatty self = False
   \<and> FDWrap_readable self = False \<and> FDWrap_writable self = False"
  by (simp add: FDWrap_seekable_def FDWrap_isatty_def FDWrap_readable_def FDWrap_writable_def)

section \<open>Properties of FDWrap: the scoped exit\<close>

lemma release_file_frame:
  "trace (release_file fl w) = trace w \<and> closed_objs (release_file fl w) = closed_objs w
   \<and> next_fd (release_file fl w) = next_fd w
   \<and> opened_paths (release_file fl w) = opened_paths w
   \<and> closed_files (release_file fl w) = insert (pyfile_fd fl) (closed_files w)
   \<and> open_fds (release_file fl w) - {pyfile_fd fl} = open_fds w - {pyfile_fd fl}"
  by (cases fl) (auto simp: pyfile_fd_def)

text \<open>
  C7. \<open>__exit__\<close> leaves the Bridge as it is (the original stream, the exposed file
  and the forwarder with its state), and makes exactly one call, \<open>close()\<close> on the
  exposed file: no join, no stop. In the world only the exposed file's descriptor is
  affected; the caller's objects stay as they were.
\<close>

theorem FDWrap_exit_frame:
  "fst (FDWrap_exit self w) = self
   \<and> trace (snd (FDWrap_exit self w)) = trace w @ [CallFileClose (file_obj self)]
   \<and> closed_files (snd (FDWrap_exit self w)) = insert (pyfile_fd (file_obj self)) (closed_files w)
   \<and> open_fds (snd (FDWrap_exit self w)) - {pyfile_fd (file_obj self)}
       = open_fds w - {pyfile_fd (file_obj self)}
   \<and> closed_objs (snd (FDWrap_exit self w)) = closed_objs w
   \<and> next_fd (snd (FDWrap_exit self w)) = next_fd w"
  by (simp add: FDWrap_exit_def file_close_def release_file_frame called_def)

section \<open>Properties of FDWrap: join\<close>

lemma loop_exit_terminal: "\<exists>r'. status (fst (loop_exit res fw w)) = Exited r'"
  by (cases "status fw") (auto simp: loop_exit_def Let_def)

lemma release_stream_trace: "trace (release_stream s w) = trace w"
  by (cases s) (auto simp: release_obj_def release_file_frame)

lemma loop_exit_trace: "trace (snd (loop_exit res fw w)) = trace w"
  by (cases "status fw") (auto simp: loop_exit_def Let_def release_stream_trace)

lemma release_stream_closed_files: "closed_files w \<subseteq> closed_files (release_stream s w)"
  by (cases s) (auto simp: release_obj_def release_file_frame)

lemma loop_exit_closed_files: "closed_files w \<subseteq> closed_files (snd (loop_exit res fw w))"
proof (cases "status fw")
  case (Exited r)
  then show ?thesis by (simp add: loop_exit_def)
next
  case Running
  then show ?thesis
    using release_stream_closed_files
    by (simp add: loop_exit_def Let_def) (meson order_trans)
next
  case Stopping
  then show ?thesis
    using release_stream_closed_files
    by (simp add: loop_exit_def Let_def) (meson order_trans)
qed

lemma Forwarder_join_Some:
  assumes "Forwarder_join ending fw w = Some (fw', w')"
  shows "trace w' = trace w @ [CallJoin] \<and> (\<exists>r. status fw' = Exited r)
         \<and> closed_files w \<subseteq> closed_files w'"
proof (cases "status fw")
  case (Exited r)
  then show ?thesis
    using assms by (auto simp: Forwarder_join_def called_def)
next
  case Running
  then obtain res where e: "ending = Some res"
    and x: "loop_exit res fw (called CallJoin w) = (fw', w')"
    using assms by (auto simp: Forwarder_join_def Let_def split: option.splits)
  have "fw' = fst (loop_exit res fw (called CallJoin w))"
    and "w' = snd (loop_exit res fw (called CallJoin w))" using x by simp_all
  then show ?thesis
    using loop_exit_trace [of res fw "called CallJoin w"]
      loop_exit_terminal [of res fw "called CallJoin w"]
      loop_exit_closed_files [of "called CallJoin w" res fw]
    by (simp add: called_def)
next
  case Stopping
  then obtain res where e: "ending = Some res"
    and x: "loop_exit res fw (called CallJoin w) = (fw', w')"
    using assms by (auto simp: Forwarder_join_def Let_def split: option.splits)
  have "fw' = fst (loop_exit res fw (called CallJoin w))"
    and "w' = snd (loop_exit res fw (called CallJoin w))" using x by simp_all
  then show ?thesis
    using loop_exit_trace [of res fw "called CallJoin w"]
      loop_exit_terminal [of res fw "called CallJoin w"]
      loop_exit_closed_files [of "called CallJoin w" res fw]
    by (simp add: called_def)
qed

lemma Forwarder_join_exited:
  "status fw = Exited r \<Longrightarrow> Forwarder_join ending fw w = Some (fw, called CallJoin w)"
  by (simp add: Forwarder_join_def)

lemma FDWrap_join_SomeD:
  assumes "FDWrap_join ending self w = Some (ret, self', w')"
  shows "\<exists>fw. Forwarder_join ending (forward self) (file_close (file_obj self) w) = Some (fw, w')
          \<and> ret = orig self \<and> self' = self\<lparr>forward := fw\<rparr>"
  using assms by (auto simp: FDWrap_join_def Let_def split: option.splits)

lemma FDWrap_join_effect:
  assumes "FDWrap_join ending self w = Some (ret, self', w')"
  shows "ret = orig self
    \<and> trace w' = trace w @ [CallFileClose (file_obj self), CallJoin]
    \<and> pyfile_fd (file_obj self) \<in> closed_files w'
    \<and> (\<exists>r. status (forward self') = Exited r)
    \<and> orig self' = orig self \<and> file_obj self' = file_obj self"
proof -
  let ?w1 = "file_close (file_obj self) w"
  obtain fw where j: "Forwarder_join ending (forward self) ?w1 = Some (fw, w')"
    and r: "ret = orig self" and s: "self' = self\<lparr>forward := fw\<rparr>"
    using FDWrap_join_SomeD [OF assms] by blast
  have t1: "trace ?w1 = trace w @ [CallFileClose (file_obj self)]"
    by (simp add: file_close_def release_file_frame called_def)
  have c1: "pyfile_fd (file_obj self) \<in> closed_files ?w1"
    by (simp add: file_close_def release_file_frame)
  from Forwarder_join_Some [OF j] t1 c1 r s show ?thesis by auto
qed


lemma example_join:
  "FDWrap_join (Some NormalEof) example_write_bridge example_world
     = Some (7, example_write_bridge\<lparr>forward := (forward example_write_bridge)\<lparr>status := Exited NormalEof\<rparr>\<rparr>,
             example_world\<lparr>open_fds := {}, closed_files := {0, 1},
                trace := [CallFileClose (Fdopen 1 ''wb''), CallJoin]\<rparr>)"
  by (simp add: FDWrap_join_def Forwarder_join_def loop_exit_def file_close_def called_def
        example_write_bridge_def example_world_def Let_def insert_commute insert_Diff_if)



text \<open>
  C8. After a \<open>join()\<close> that returned, a second \<open>join()\<close> returns as well, also
  when the environment offers no further end of the loop (so it cannot be waiting for
  one), with the same stream object. It leaves the Bridge as it is, and the world too
  but for the two calls it adds to the trace: no descriptor is released again.
\<close>

theorem FDWrap_join_twice:
  assumes "FDWrap_join ending self w = Some (ret, self', w')"
  shows "FDWrap_join ending' self' w'
           = Some (ret, self', w'\<lparr>trace := trace w' @ [CallFileClose (file_obj self), CallJoin]\<rparr>)"
proof -
  from FDWrap_join_effect [OF assms]
  obtain r where st: "status (forward self') = Exited r"
    and cl: "pyfile_fd (file_obj self) \<in> closed_files w'"
    and o: "orig self' = orig self" "file_obj self' = file_obj self" "ret = orig self"
    by blast
  have fc: "file_close (file_obj self) w' = w'\<lparr>trace := trace w' @ [CallFileClose (file_obj self)]\<rparr>"
    using cl by (cases "file_obj self") (simp add: file_close_def called_def pyfile_fd_def)
  show ?thesis
    using st o fc by (simp add: FDWrap_join_def Forwarder_join_exited called_def)
qed

theorem FDWrap_join_twice_witness:
  "FDWrap_join (Some NormalEof) example_write_bridge example_world
     = Some (7, example_write_bridge\<lparr>forward := (forward example_write_bridge)\<lparr>status := Exited NormalEof\<rparr>\<rparr>,
             example_world\<lparr>open_fds := {}, closed_files := {0, 1},
                trace := [CallFileClose (Fdopen 1 ''wb''), CallJoin]\<rparr>)
   \<and> FDWrap_join None
        (example_write_bridge\<lparr>forward := (forward example_write_bridge)\<lparr>status := Exited NormalEof\<rparr>\<rparr>)
        (example_world\<lparr>open_fds := {}, closed_files := {0, 1},
                trace := [CallFileClose (Fdopen 1 ''wb''), CallJoin]\<rparr>)
     = Some (7, example_write_bridge\<lparr>forward := (forward example_write_bridge)\<lparr>status := Exited NormalEof\<rparr>\<rparr>,
             example_world\<lparr>open_fds := {}, closed_files := {0, 1},
                trace := [CallFileClose (Fdopen 1 ''wb''), CallJoin,
                          CallFileClose (Fdopen 1 ''wb''), CallJoin]\<rparr>)"
proof -
  from FDWrap_join_twice [OF example_join, of None] example_join show ?thesis
    by (simp add: example_write_bridge_def)
qed

section \<open>Properties of FDWrap: detach\<close>

lemma release_file_closed_objs: "closed_objs (release_file fl w) = closed_objs w"
  by (simp add: release_file_frame)

lemma loop_exit_closed_objs:
  assumes "borrows_caller fw"
  shows "closed_objs (snd (loop_exit res fw w)) = closed_objs w"
  using assms
  by (cases "status fw")
     (auto simp: borrows_caller_def loop_exit_def Let_def release_file_closed_objs)

lemma FDWrap_init_borrows:
  assumes "FDWrap_init accepts fobj mode w0 = (Inr self, w1)"
  shows "borrows_caller (forward self) \<and> orig self = fobj"
  using assms
  by (auto simp: init_defs Let_def borrows_caller_def split: if_splits prod.splits sum.splits)

lemma example_read_init:
  "FDWrap_init py_open_accepts 7 ''rb'' world0
     = (Inr example_read_bridge,
        example_world\<lparr>trace := [CallPipe 0 1, CallFdopen 0 ''rb'', CallFdopen 1 ''wb'',
           CallForwarder (Caller 7) (Piped (Fdopen 1 ''wb'')) False True]\<rparr>)"
  by (simp add: init_defs py_open_accepts_def world0_def example_read_bridge_def example_world_def)

text \<open>
  C6. Take a Bridge as its constructor built it, in either direction, at any later
  moment (whatever the state of its copy loop) and in any world, for instance after
  the exposed end was closed. \<open>detach()\<close> returns the stream object given at
  construction; it makes one call, \<open>stop()\<close> on the forwarder, which turns a
  running loop into one that was asked to stop and raises nothing; it closes no
  object of the caller. When the loop exits afterwards, for whatever reason, the
  caller's object is still not closed, since the forwarder does not own it.
\<close>

theorem FDWrap_detach_keeps_orig:
  assumes init: "FDWrap_init accepts fobj mode w0 = (Inr self0, w1)"
    and now: "self = self0\<lparr>forward := (forward self0)\<lparr>status := st\<rparr>\<rparr>"
    and det: "FDWrap_detach self w = (ret, self', w')"
  shows "ret = fobj
    \<and> self' = self\<lparr>forward := (forward self)\<lparr>status := (if st = Running then Stopping else st)\<rparr>\<rparr>
    \<and> w' = w\<lparr>trace := trace w @ [CallStop]\<rparr>
    \<and> closed_objs w' = closed_objs w
    \<and> closed_objs (snd (loop_exit res (forward self') w')) = closed_objs w"
proof -
  have b: "borrows_caller (forward self0)" and o: "orig self0 = fobj"
    using FDWrap_init_borrows [OF init] by simp_all
  have d: "ret = fobj"
    "self' = self\<lparr>forward := (forward self)\<lparr>status := (if st = Running then Stopping else st)\<rparr>\<rparr>"
    "w' = w\<lparr>trace := trace w @ [CallStop]\<rparr>"
    using det now o by (auto simp: FDWrap_detach_def Forwarder_stop_def called_def)
  have "borrows_caller (forward self')"
    using b d(2) now by (simp add: borrows_caller_def)
  then have "closed_objs (snd (loop_exit res (forward self') w')) = closed_objs w'"
    by (rule loop_exit_closed_objs)
  with d show ?thesis by simp
qed

theorem FDWrap_detach_keeps_orig_witness:
  "FDWrap_init py_open_accepts 7 ''rb'' world0
     = (Inr example_read_bridge,
        example_world\<lparr>trace := [CallPipe 0 1, CallFdopen 0 ''rb'', CallFdopen 1 ''wb'',
           CallForwarder (Caller 7) (Piped (Fdopen 1 ''wb'')) False True]\<rparr>)
   \<and> FDWrap_detach example_read_bridge (snd (FDWrap_exit example_read_bridge example_world))
     = (7, example_read_bridge\<lparr>forward := (forward example_read_bridge)\<lparr>status := Stopping\<rparr>\<rparr>,
        example_world\<lparr>open_fds := {1}, closed_files := {0},
          trace := [CallFileClose (Fdopen 0 ''rb''), CallStop]\<rparr>)
   \<and> closed_objs (snd (loop_exit Failed
         (forward (example_read_bridge\<lparr>forward := (forward example_read_bridge)\<lparr>status := Stopping\<rparr>\<rparr>))
         (example_world\<lparr>open_fds := {1}, closed_files := {0},
            trace := [CallFileClose (Fdopen 0 ''rb''), CallStop]\<rparr>))) = {}"
proof -
  have now: "example_read_bridge
      = example_read_bridge\<lparr>forward := (forward example_read_bridge)\<lparr>status := Running\<rparr>\<rparr>"
    by (simp add: example_read_bridge_def)
  have det: "FDWrap_detach example_read_bridge (snd (FDWrap_exit example_read_bridge example_world))
     = (7, example_read_bridge\<lparr>forward := (forward example_read_bridge)\<lparr>status := Stopping\<rparr>\<rparr>,
        example_world\<lparr>open_fds := {1}, closed_files := {0},
          trace := [CallFileClose (Fdopen 0 ''rb''), CallStop]\<rparr>)"
    by (simp add: FDWrap_detach_def FDWrap_exit_def Forwarder_stop_def file_close_def called_def
          example_read_bridge_def example_world_def insert_Diff_if)
  from FDWrap_detach_keeps_orig [OF example_read_init now det, of Failed] example_read_init det
  show ?thesis
    by (simp add: FDWrap_exit_def file_close_def called_def example_read_bridge_def
          example_world_def)
qed

section \<open>Properties of the byte flow through a write-mode Bridge\<close>




lemma run_append:
  "run cap csz (es @ fs) s = (case run cap csz es s of None \<Rightarrow> None | Some s' \<Rightarrow> run cap csz fs s')"
  by (induction es arbitrary: s) (auto split: option.splits)

lemma run_bytewise:
  assumes "0 < cap" and "0 < csz"
    and "loop s = Running" and "exposed_open s" and "pipe s = []" and "chunk s = []"
  shows "run cap csz (bytewise bs) s
           = Some (s\<lparr>written := written s @ bs, received := received s @ bs\<rparr>)"
  using assms(3-)
proof (induction bs arbitrary: s)
  case Nil
  then show ?case by simp
next
  case (Cons b bs)
  let ?s1 = "s\<lparr>written := written s @ [b], received := received s @ [b]\<rparr>"
  have same: "s\<lparr>written := written s @ [b], pipe := [], received := received s @ [b],
                 chunk := []\<rparr> = ?s1"
    using Cons.prems by (cases s) simp
  have "run cap csz (bytewise (b # bs)) s
          = run cap csz (bytewise bs)
              (s\<lparr>written := written s @ [b], pipe := [], received := received s @ [b],
                 chunk := []\<rparr>)"
    using Cons.prems assms(1,2) by (simp add: Suc_le_eq)
  then have step: "run cap csz (bytewise (b # bs)) s = run cap csz (bytewise bs) ?s1"
    by (simp only: same)
  have "run cap csz (bytewise bs) ?s1
          = Some (?s1\<lparr>written := written ?s1 @ bs, received := received ?s1 @ bs\<rparr>)"
    using Cons.prems by (intro Cons.IH) simp_all
  then show ?case using step by simp
qed

lemma write_bridge_can_deliver:
  assumes "0 < cap" and "0 < csz"
  shows "\<exists>s. run cap csz (bytewise B @ [CloseExposed, LoopRead 0]) flow0 = Some s
             \<and> loop s = Exited NormalEof \<and> written s = B \<and> received s = B"
proof -
  have "run cap csz (bytewise B) flow0
          = Some (flow0\<lparr>written := written flow0 @ B, received := received flow0 @ B\<rparr>)"
    using assms by (intro run_bytewise) (simp_all add: flow0_def)
  then show ?thesis
    by (simp add: run_append flow0_def)
qed



end
